theory Spec2Isabelle
  imports Main
begin

section \<open>Program model consumed by the immutable validator\<close>

text \<open>
  The validator of \<^verbatim>\<open>libsolidity/analysis/ImmutableValidator.cpp\<close> walks a
  name-resolved, type-annotated syntax tree. Declarations are objects the tree points
  to; here a pointer to a declaration is its identifier \<open>decl_id\<close>, and the table
  \<open>declarations\<close> of a program holds the object behind each identifier. Pointer
  equality is equality of identifiers, and a \<^verbatim>\<open>dynamic_cast\<close> is a lookup that
  asks for one kind of declaration.
\<close>

type_synonym decl_id = nat
type_synonym SourceLocation = "nat \<times> nat"

text \<open>
  The annotation \<^verbatim>\<open>annotation().type\<close> of a member access, as far as the validator
  reads it: whether it is a function type, its kind, and its declaration when it has one.
\<close>

datatype FunctionKind = Internal | External | Declaration | OtherKind

datatype TypeAnnotation =
    FunctionType FunctionKind "decl_id option"
  | OtherType

text \<open>
  The node kinds the validator has a \<^verbatim>\<open>visit\<close> for, with the fields it reads.
  An identifier carries its location and the annotations \<^verbatim>\<open>referencedDeclaration\<close>,
  \<^verbatim>\<open>lValueRequested\<close> and \<^verbatim>\<open>ordinaryLAssignment\<close>; a return statement its
  location and its expression, if any. Function and modifier definitions are not nodes
  of a body: they are reached through the declaration table.

  Modelled from the spec: the traversal framework (the visitor base class and the
  \<^verbatim>\<open>accept\<close> methods of the nodes) is not among the sources. Node kinds without a
  \<^verbatim>\<open>visit\<close> of the validator are walked by the default rule "visit all children",
  in order; \<open>OtherNode\<close> stands for every such node. A \<^verbatim>\<open>visit\<close> that returns
  \<^verbatim>\<open>true\<close> lets the framework go on into the children, one that returns
  \<^verbatim>\<open>false\<close> does not.
\<close>

datatype node =
    Identifier SourceLocation "decl_id option" bool bool
  | MemberAccess node TypeAnnotation
  | IfStatement node node "node option"
  | WhileStatement node node
  | Return SourceLocation "node option"
  | OtherNode "node list"

text \<open>
  Declarations, with what the validator asks of them. \<open>fd_contract\<close> and
  \<open>vd_contract\<close> are \<^verbatim>\<open>annotation().contract->id()\<close>; \<open>fd_body\<close> is absent for
  a function that is not implemented; \<open>fd_modifiers\<close> are the modifier invocations
  (each a node with the name of the modifier and its arguments as children). Types are
  given by their names.
\<close>

record FunctionDefinition =
  fd_name :: string
  fd_isConstructor :: bool
  fd_virtualSemantics :: bool
  fd_contract :: nat
  fd_parameterTypes :: "string list"
  fd_returnTypes :: "string list"
  fd_modifiers :: "node list"
  fd_body :: "node option"

record ModifierDefinition =
  md_name :: string
  md_virtualSemantics :: bool
  md_body :: node

record VariableDeclaration =
  vd_isStateVariable :: bool
  vd_immutable :: bool
  vd_contract :: nat
  vd_value :: "node option"
  vd_location :: SourceLocation

datatype Declaration =
    FunctionDef FunctionDefinition
  | ModifierDef ModifierDefinition
  | EventDef
  | VariableDecl VariableDeclaration
  | OtherDeclaration

text \<open>
  A contract of the linearization: its constructor, for each inheritance specifier the
  list of its arguments (if it has one), the functions and the modifiers it defines.
  A program is what one run of the validator sees: the declaration table, and of the
  contract under analysis the state variables including inherited ones, the linearized
  base contracts (most derived first) and the location.
\<close>

record ContractDefinition =
  cd_constructor :: "decl_id option"
  cd_baseContracts :: "node list option list"
  cd_definedFunctions :: "decl_id list"
  cd_functionModifiers :: "decl_id list"

record Program =
  declarations :: "(decl_id \<times> Declaration) list"
  stateVariablesIncludingInherited :: "decl_id list"
  linearizedBaseContracts :: "ContractDefinition list"
  contractLocation :: SourceLocation

text \<open>
  Every diagnostic of the validator is a type error; they differ in the message, named
  here by the kinds of the specification, in the location and in the secondary
  location.
\<close>

datatype ErrorKind =
    ImmutableReadDuringConstruction
  | InvalidInitLocation
  | WrongContractInit
  | InitInLoop
  | InitInBranch
  | DoubleInit
  | IncompleteConstruction

record Diagnostic =
  diag_kind :: ErrorKind
  diag_location :: SourceLocation
  diag_secondary :: "SourceLocation option"

text \<open>
  The members of the validator. \<open>m_errorReporter\<close> is the list of diagnostics reported
  so far. \<open>walkedBodies\<close> is a history variable that the source does not have: it
  records, in order, each callable whose body the walk enters.
\<close>

record ImmutableValidator =
  m_inConstructionContext :: bool
  m_inBranch :: bool
  m_inLoop :: bool
  m_currentConstructor :: "decl_id option"
  m_visitedCallables :: "decl_id set"
  m_initializedStateVariables :: "decl_id set"
  m_errorReporter :: "Diagnostic list"
  walkedBodies :: "decl_id list"

definition lookupDecl :: "Program \<Rightarrow> decl_id \<Rightarrow> Declaration option" where
  "lookupDecl P d = map_of (declarations P) d"

definition functionAt :: "Program \<Rightarrow> decl_id \<Rightarrow> FunctionDefinition option" where
  "functionAt P d = (case lookupDecl P d of Some (FunctionDef fd) \<Rightarrow> Some fd | _ \<Rightarrow> None)"

definition modifierAt :: "Program \<Rightarrow> decl_id \<Rightarrow> ModifierDefinition option" where
  "modifierAt P d = (case lookupDecl P d of Some (ModifierDef md) \<Rightarrow> Some md | _ \<Rightarrow> None)"

definition variableAt :: "Program \<Rightarrow> decl_id \<Rightarrow> VariableDeclaration option" where
  "variableAt P d = (case lookupDecl P d of Some (VariableDecl vd) \<Rightarrow> Some vd | _ \<Rightarrow> None)"

fun isCallable :: "Declaration option \<Rightarrow> bool" where
  "isCallable (Some (FunctionDef _)) = True"
| "isCallable (Some (ModifierDef _)) = True"
| "isCallable (Some EventDef) = True"
| "isCallable _ = False"

text \<open>Reporting a diagnostic appends it; the walk goes on.\<close>

definition typeError :: "ErrorKind \<Rightarrow> SourceLocation \<Rightarrow> SourceLocation option \<Rightarrow> ImmutableValidator \<Rightarrow> ImmutableValidator" where
  "typeError k loc sec s = s\<lparr>m_errorReporter := m_errorReporter s @ [\<lparr>diag_kind = k, diag_location = loc, diag_secondary = sec\<rparr>]\<rparr>"

text \<open>
  Modelled from the spec: the function-type comparisons \<^verbatim>\<open>hasEqualParameterTypes\<close>
  and \<^verbatim>\<open>hasEqualReturnTypes\<close> of the type system are not part of the validator;
  the specification reads them as "parameter types and return types are exactly equal".
\<close>

definition hasEqualParameterTypes :: "FunctionDefinition \<Rightarrow> FunctionDefinition \<Rightarrow> bool" where
  "hasEqualParameterTypes a b = (fd_parameterTypes a = fd_parameterTypes b)"

definition hasEqualReturnTypes :: "FunctionDefinition \<Rightarrow> FunctionDefinition \<Rightarrow> bool" where
  "hasEqualReturnTypes a b = (fd_returnTypes a = fd_returnTypes b)"

text \<open>
  \<^verbatim>\<open>findFinalOverride\<close>: the inner and the outer loop over the functions, and over
  the modifiers, of the linearized base contracts; each returns at the first match.
\<close>

fun scanFunctions :: "Program \<Rightarrow> FunctionDefinition \<Rightarrow> decl_id list \<Rightarrow> decl_id option" where
  "scanFunctions P origin [] = None"
| "scanFunctions P origin (f # fs) =
     (case functionAt P f of
        Some fd \<Rightarrow>
          if fd_name fd = fd_name origin
             \<and> hasEqualReturnTypes fd origin \<and> hasEqualParameterTypes fd origin
          then Some f
          else scanFunctions P origin fs
      | None \<Rightarrow> scanFunctions P origin fs)"

fun scanContractsForFunction :: "Program \<Rightarrow> FunctionDefinition \<Rightarrow> ContractDefinition list \<Rightarrow> decl_id option" where
  "scanContractsForFunction P origin [] = None"
| "scanContractsForFunction P origin (c # cs) =
     (case scanFunctions P origin (cd_definedFunctions c) of
        Some f \<Rightarrow> Some f
      | None \<Rightarrow> scanContractsForFunction P origin cs)"

fun scanModifiers :: "Program \<Rightarrow> string \<Rightarrow> decl_id list \<Rightarrow> decl_id option" where
  "scanModifiers P name [] = None"
| "scanModifiers P name (m # ms) =
     (case modifierAt P m of
        Some md \<Rightarrow> if name = md_name md then Some m else scanModifiers P name ms
      | None \<Rightarrow> scanModifiers P name ms)"

fun scanContractsForModifier :: "Program \<Rightarrow> string \<Rightarrow> ContractDefinition list \<Rightarrow> decl_id option" where
  "scanContractsForModifier P name [] = None"
| "scanContractsForModifier P name (c # cs) =
     (case scanModifiers P name (cd_functionModifiers c) of
        Some m \<Rightarrow> Some m
      | None \<Rightarrow> scanContractsForModifier P name cs)"

definition findFinalOverride :: "Program \<Rightarrow> decl_id \<Rightarrow> decl_id" where
  "findFinalOverride P c =
     (case lookupDecl P c of
        Some (FunctionDef originFuncDef) \<Rightarrow>
          if \<not> fd_virtualSemantics originFuncDef then c
          else (case scanContractsForFunction P originFuncDef (linearizedBaseContracts P) of
                  Some funcDef \<Rightarrow> funcDef
                | None \<Rightarrow> c)
      | Some (ModifierDef md) \<Rightarrow>
          if \<not> md_virtualSemantics md then c
          else (case scanContractsForModifier P (md_name md) (linearizedBaseContracts P) of
                  Some modDef \<Rightarrow> modDef
                | None \<Rightarrow> c)
      | _ \<Rightarrow> c)"

text \<open>\<^verbatim>\<open>checkAllVariablesInitialized\<close>: the loop over the state variables.\<close>

fun checkVariables :: "Program \<Rightarrow> SourceLocation \<Rightarrow> decl_id list \<Rightarrow> ImmutableValidator \<Rightarrow> ImmutableValidator" where
  "checkVariables P loc [] s = s"
| "checkVariables P loc (v # vs) s =
     checkVariables P loc vs
       (case variableAt P v of
          Some varDecl \<Rightarrow>
            if vd_immutable varDecl \<and> v \<notin> m_initializedStateVariables s
            then typeError IncompleteConstruction loc (Some (vd_location varDecl)) s
            else s
        | None \<Rightarrow> s)"

definition checkAllVariablesInitialized :: "Program \<Rightarrow> SourceLocation \<Rightarrow> ImmutableValidator \<Rightarrow> ImmutableValidator" where
  "checkAllVariablesInitialized P loc s = checkVariables P loc (stateVariablesIncludingInherited P) s"

text \<open>
  \<^verbatim>\<open>visit(Identifier)\<close> for a declaration that is not a callable: the chain of
  location checks of an ordinary assignment, the insertion into the initialized set,
  and the check of a read.
\<close>

definition constructorContract :: "Program \<Rightarrow> decl_id \<Rightarrow> nat option" where
  "constructorContract P ctor = map_option fd_contract (functionAt P ctor)"

definition locationCheck :: "Program \<Rightarrow> SourceLocation \<Rightarrow> VariableDeclaration \<Rightarrow> ImmutableValidator \<Rightarrow> ImmutableValidator" where
  "locationCheck P loc varDecl s =
     (case m_currentConstructor s of
        None \<Rightarrow> typeError InvalidInitLocation loc None s
      | Some ctor \<Rightarrow>
          if constructorContract P ctor \<noteq> Some (vd_contract varDecl)
          then typeError WrongContractInit loc None s
          else if m_inLoop s then typeError InitInLoop loc None s
          else if m_inBranch s then typeError InitInBranch loc None s
          else s)"

definition visitVariableIdentifier :: "Program \<Rightarrow> SourceLocation \<Rightarrow> decl_id \<Rightarrow> bool \<Rightarrow> bool \<Rightarrow> ImmutableValidator \<Rightarrow> ImmutableValidator" where
  "visitVariableIdentifier P loc d lValueRequested ordinaryLAssignment s =
     (case variableAt P d of
        None \<Rightarrow> s
      | Some varDecl \<Rightarrow>
          if \<not> vd_isStateVariable varDecl \<or> \<not> vd_immutable varDecl then s
          else if lValueRequested \<and> ordinaryLAssignment then
            (let s1 = locationCheck P loc varDecl s;
                 inserted = (d \<notin> m_initializedStateVariables s1);
                 s2 = s1\<lparr>m_initializedStateVariables := insert d (m_initializedStateVariables s1)\<rparr>
             in if \<not> inserted then typeError DoubleInit loc None s2 else s2)
          else if m_inConstructionContext s then typeError ImmutableReadDuringConstruction loc None s
          else s)"

text \<open>
  The walk. \<open>accept\<close> is the dispatch of a node to its \<^verbatim>\<open>visit\<close>, with the
  children the framework walks afterwards; \<open>listAccept\<close> is \<^verbatim>\<open>ASTNode::listAccept\<close>;
  \<open>analyseCallable\<close> is what \<^verbatim>\<open>accept\<close> does on the declaration of a callable.
  \<open>internalCallTarget\<close> is the test of \<^verbatim>\<open>visit(MemberAccess)\<close>: a function type of
  kind internal or declaration that has a declaration.

  A set insertion that reports whether the element is new is the membership test
  followed by the insertion. A visit of a return statement outside a constructor returns
  \<^verbatim>\<open>true\<close>, so the framework walks the expression. The declaration of an
  event is a callable without virtual semantics whose children (its parameters) have no
  effect on the validator; the declaration of a function type of kind internal or
  declaration is a function definition.
\<close>

fun internalCallTarget :: "TypeAnnotation \<Rightarrow> decl_id option" where
  "internalCallTarget (FunctionType kind declaration) =
     (if kind = Internal \<or> kind = Declaration then declaration else None)"
| "internalCallTarget OtherType = None"

function accept :: "Program \<Rightarrow> node \<Rightarrow> ImmutableValidator \<Rightarrow> ImmutableValidator"
  and listAccept :: "Program \<Rightarrow> node list \<Rightarrow> ImmutableValidator \<Rightarrow> ImmutableValidator"
  and analyseCallable :: "Program \<Rightarrow> decl_id \<Rightarrow> ImmutableValidator \<Rightarrow> ImmutableValidator"
where
  "accept P (Identifier loc referencedDeclaration lValueRequested ordinaryLAssignment) s =
     (case referencedDeclaration of
        None \<Rightarrow> s
      | Some d \<Rightarrow>
          if isCallable (lookupDecl P d) then
            (let finalDef = findFinalOverride P d in
             if finalDef \<in> m_visitedCallables s then s
             else analyseCallable P finalDef
                    (s\<lparr>m_visitedCallables := insert finalDef (m_visitedCallables s)\<rparr>))
          else visitVariableIdentifier P loc d lValueRequested ordinaryLAssignment s)"
| "accept P (MemberAccess expression ty) s =
     (let s1 = accept P expression s in
      case internalCallTarget ty of
        Some d \<Rightarrow>
          if d \<in> m_visitedCallables s1 then s1
          else analyseCallable P d (s1\<lparr>m_visitedCallables := insert d (m_visitedCallables s1)\<rparr>)
      | None \<Rightarrow> s1)"
| "accept P (IfStatement condition trueStatement falseStatement) s =
     (let prevInBranch = m_inBranch s;
          s1 = accept P condition s;
          s2 = accept P trueStatement (s1\<lparr>m_inBranch := True\<rparr>);
          s3 = (case falseStatement of Some f \<Rightarrow> accept P f s2 | None \<Rightarrow> s2)
      in s3\<lparr>m_inBranch := prevInBranch\<rparr>)"
| "accept P (WhileStatement condition body) s =
     (let prevInLoop = m_inLoop s;
          s1 = accept P condition (s\<lparr>m_inLoop := True\<rparr>);
          s2 = accept P body s1
      in s2\<lparr>m_inLoop := prevInLoop\<rparr>)"
| "accept P (Return loc expression) s =
     (if m_currentConstructor s = None then
        (case expression of Some retExpr \<Rightarrow> accept P retExpr s | None \<Rightarrow> s)
      else
        checkAllVariablesInitialized P loc
          (case expression of Some retExpr \<Rightarrow> accept P retExpr s | None \<Rightarrow> s))"
| "accept P (OtherNode children) s = listAccept P children s"
| "listAccept P [] s = s"
| "listAccept P (n # ns) s = listAccept P ns (accept P n s)"
| "analyseCallable P d s =
     (case lookupDecl P d of
        Some (FunctionDef funcDef) \<Rightarrow>
          (let prevConstructor = m_currentConstructor s;
               s1 = s\<lparr>m_currentConstructor := (if fd_isConstructor funcDef then Some d else None)\<rparr>;
               s2 = listAccept P (fd_modifiers funcDef) s1;
               s3 = (case fd_body funcDef of
                       Some body \<Rightarrow> accept P body (s2\<lparr>walkedBodies := walkedBodies s2 @ [d]\<rparr>)
                     | None \<Rightarrow> s2)
           in s3\<lparr>m_currentConstructor := prevConstructor\<rparr>)
      | Some (ModifierDef modDef) \<Rightarrow>
          (let prevConstructor = m_currentConstructor s;
               s1 = s\<lparr>m_currentConstructor := None\<rparr>;
               s2 = accept P (md_body modDef) (s1\<lparr>walkedBodies := walkedBodies s1 @ [d]\<rparr>)
           in s2\<lparr>m_currentConstructor := prevConstructor\<rparr>)
      | _ \<Rightarrow> s)"
  by pat_completeness auto


subsection \<open>Termination of the walk\<close>

text \<open>
  A call edge is followed only into a callable that is newly inserted into the visited
  set, so the number of declarations not yet visited decreases along call edges; between
  call edges the walk descends into the tree.
\<close>

definition unvisited :: "Program \<Rightarrow> ImmutableValidator \<Rightarrow> nat" where
  "unvisited P s = card (fst ` set (declarations P) - m_visitedCallables s)"

fun declWeight :: "Declaration option \<Rightarrow> nat" where
  "declWeight (Some (FunctionDef funcDef)) =
     size_list size (fd_modifiers funcDef) + size_option size (fd_body funcDef) + 3"
| "declWeight (Some (ModifierDef modDef)) = size (md_body modDef) + 2"
| "declWeight _ = 0"

fun walkMeasure ::
  "(Program \<times> node \<times> ImmutableValidator) + (Program \<times> node list \<times> ImmutableValidator) + (Program \<times> decl_id \<times> ImmutableValidator)
   \<Rightarrow> nat \<times> nat" where
  "walkMeasure (Inl (P, n, s)) = (unvisited P s, size n + 1)"
| "walkMeasure (Inr (Inl (P, ns, s))) = (unvisited P s, size_list size ns + 1)"
| "walkMeasure (Inr (Inr (P, d, s))) = (unvisited P s, declWeight (lookupDecl P d))"

lemma typeError_fields [simp]:
  "m_visitedCallables (typeError k loc sec s) = m_visitedCallables s"
  "m_initializedStateVariables (typeError k loc sec s) = m_initializedStateVariables s"
  "m_inConstructionContext (typeError k loc sec s) = m_inConstructionContext s"
  "m_inBranch (typeError k loc sec s) = m_inBranch s"
  "m_inLoop (typeError k loc sec s) = m_inLoop s"
  "m_currentConstructor (typeError k loc sec s) = m_currentConstructor s"
  "walkedBodies (typeError k loc sec s) = walkedBodies s"
  "m_errorReporter (typeError k loc sec s) =
     m_errorReporter s @ [\<lparr>diag_kind = k, diag_location = loc, diag_secondary = sec\<rparr>]"
  by (simp_all add: typeError_def)

lemma checkVariables_visited [simp]:
  "m_visitedCallables (checkVariables P loc vs s) = m_visitedCallables s"
  by (induction vs arbitrary: s) (auto split: option.splits Declaration.splits)

lemma checkAll_visited [simp]:
  "m_visitedCallables (checkAllVariablesInitialized P loc s) = m_visitedCallables s"
  by (simp add: checkAllVariablesInitialized_def)

lemma locationCheck_visited [simp]:
  "m_visitedCallables (locationCheck P loc v s) = m_visitedCallables s"
  by (simp add: locationCheck_def split: option.splits)

lemma visitVariableIdentifier_visited [simp]:
  "m_visitedCallables (visitVariableIdentifier P loc d lv ord s) = m_visitedCallables s"
  by (simp add: visitVariableIdentifier_def Let_def split: option.splits Declaration.splits)

lemma visited_mono_dom:
  "accept_listAccept_analyseCallable_dom (Inl (P, n, s)) \<Longrightarrow>
     m_visitedCallables s \<subseteq> m_visitedCallables (accept P n s)"
  "accept_listAccept_analyseCallable_dom (Inr (Inl (P, ns, s))) \<Longrightarrow>
     m_visitedCallables s \<subseteq> m_visitedCallables (listAccept P ns s)"
  "accept_listAccept_analyseCallable_dom (Inr (Inr (P, d, s))) \<Longrightarrow>
     m_visitedCallables s \<subseteq> m_visitedCallables (analyseCallable P d s)"
proof (induct rule: accept_listAccept_analyseCallable.pinduct)
  case (1 P loc referencedDeclaration lValueRequested ordinaryLAssignment s)
  show ?case
    using "1.hyps"(2)[OF _ _ refl]
    by (auto simp: accept.psimps(1)[OF "1.hyps"(1)] Let_def split: option.splits)
next
  case (2 P expression ty s)
  have a: "m_visitedCallables s \<subseteq> m_visitedCallables (accept P expression s)"
    using "2.hyps"(2) .
  show ?case
    using a "2.hyps"(3)[OF refl]
    by (auto simp: accept.psimps(2)[OF "2.hyps"(1)] Let_def split: option.splits)
next
  case (3 P condition trueStatement falseStatement s)
  have a: "m_visitedCallables s \<subseteq> m_visitedCallables (accept P condition s)"
    using "3.hyps"(2)[OF refl] .
  have b: "m_visitedCallables (accept P condition s)
             \<subseteq> m_visitedCallables (accept P trueStatement ((accept P condition s)\<lparr>m_inBranch := True\<rparr>))"
    using "3.hyps"(3)[OF refl refl] by simp
  show ?case
  proof (cases falseStatement)
    case None
    show ?thesis
      unfolding accept.psimps(3)[OF "3.hyps"(1)]
      using a b None by (auto simp: Let_def)
  next
    case (Some f)
    have c: "m_visitedCallables (accept P trueStatement ((accept P condition s)\<lparr>m_inBranch := True\<rparr>))
               \<subseteq> m_visitedCallables
                    (accept P f (accept P trueStatement ((accept P condition s)\<lparr>m_inBranch := True\<rparr>)))"
      using "3.hyps"(4)[OF refl refl refl Some] .
    show ?thesis
      unfolding accept.psimps(3)[OF "3.hyps"(1)]
      using a b c Some by (auto simp: Let_def)
  qed
next
  case (4 P condition body s)
  have a: "m_visitedCallables s \<subseteq> m_visitedCallables (accept P condition (s\<lparr>m_inLoop := True\<rparr>))"
    using "4.hyps"(2)[OF refl] by simp
  have b: "m_visitedCallables (accept P condition (s\<lparr>m_inLoop := True\<rparr>))
             \<subseteq> m_visitedCallables (accept P body (accept P condition (s\<lparr>m_inLoop := True\<rparr>)))"
    using "4.hyps"(3)[OF refl refl] .
  show ?case
    using a b by (auto simp: accept.psimps(4)[OF "4.hyps"(1)] Let_def)
next
  case (5 P loc expression s)
  show ?case
    unfolding accept.psimps(5)[OF "5.hyps"(1)]
    using "5.hyps"(2,3)
    by (cases expression; cases "m_currentConstructor s = None") auto
next
  case (6 P children s)
  then show ?case by (simp add: accept.psimps)
next
  case (7 P s)
  then show ?case by (simp add: listAccept.psimps)
next
  case (8 P n ns s)
  then show ?case by (auto simp: listAccept.psimps)
next
  case (9 P d s)
  show ?case
  proof (cases "lookupDecl P d")
    case None
    then show ?thesis by (simp add: analyseCallable.psimps[OF "9.hyps"(1)])
  next
    case (Some decl)
    show ?thesis
    proof (cases decl)
      case (FunctionDef funcDef)
      let ?s1 = "s\<lparr>m_currentConstructor := (if fd_isConstructor funcDef then Some d else None)\<rparr>"
      have a: "m_visitedCallables s \<subseteq> m_visitedCallables (listAccept P (fd_modifiers funcDef) ?s1)"
        using "9.hyps"(2)[OF Some FunctionDef refl refl] by simp
      show ?thesis
      proof (cases "fd_body funcDef")
        case None
        then show ?thesis
          using a Some FunctionDef by (simp add: analyseCallable.psimps[OF "9.hyps"(1)] Let_def)
      next
        case (Some body)
        have b: "m_visitedCallables (listAccept P (fd_modifiers funcDef) ?s1)
                  \<subseteq> m_visitedCallables
                       (accept P body ((listAccept P (fd_modifiers funcDef) ?s1)
                          \<lparr>walkedBodies := walkedBodies (listAccept P (fd_modifiers funcDef) ?s1) @ [d]\<rparr>))"
          using "9.hyps"(3)[OF \<open>lookupDecl P d = Some decl\<close> FunctionDef refl refl refl Some] by simp
        show ?thesis
          using a b Some \<open>lookupDecl P d = Some decl\<close> FunctionDef
          by (auto simp: analyseCallable.psimps[OF "9.hyps"(1)] Let_def)
      qed
    next
      case (ModifierDef modDef)
      show ?thesis
        using "9.hyps"(4)[OF Some ModifierDef refl refl] Some ModifierDef
        by (auto simp: analyseCallable.psimps[OF "9.hyps"(1)] Let_def)
    qed (use Some in \<open>simp_all add: analyseCallable.psimps[OF "9.hyps"(1)]\<close>)
  qed
qed

lemma unvisited_mono:
  "m_visitedCallables s \<subseteq> m_visitedCallables s' \<Longrightarrow> unvisited P s' \<le> unvisited P s"
  unfolding unvisited_def by (intro card_mono) auto

lemma unvisited_insert:
  "d \<notin> m_visitedCallables s \<Longrightarrow> d \<in> fst ` set (declarations P) \<Longrightarrow>
   unvisited P (s\<lparr>m_visitedCallables := insert d (m_visitedCallables s)\<rparr>) < unvisited P s"
  unfolding unvisited_def by (intro psubset_card_mono) auto

lemma unvisited_insert_le:
  "unvisited P (s\<lparr>m_visitedCallables := insert d (m_visitedCallables s)\<rparr>) \<le> unvisited P s"
  by (rule unvisited_mono) auto

lemma lookupDecl_None_weight:
  "d \<notin> fst ` set (declarations P) \<Longrightarrow> declWeight (lookupDecl P d) = 0"
  by (simp add: lookupDecl_def map_of_eq_None_iff[THEN iffD2])

lemma unvisited_update [simp]:
  "unvisited P (s\<lparr>m_inBranch := b\<rparr>) = unvisited P s"
  "unvisited P (s\<lparr>m_inLoop := b\<rparr>) = unvisited P s"
  "unvisited P (s\<lparr>m_currentConstructor := c\<rparr>) = unvisited P s"
  "unvisited P (s\<lparr>walkedBodies := w\<rparr>) = unvisited P s"
  by (simp_all add: unvisited_def)

lemma unvisited_accept_dom:
  "accept_listAccept_analyseCallable_dom (Inl (P, n, s)) \<Longrightarrow> unvisited P (accept P n s) \<le> unvisited P s"
  by (rule unvisited_mono) (rule visited_mono_dom)

lemma unvisited_listAccept_dom:
  "accept_listAccept_analyseCallable_dom (Inr (Inl (P, ns, s))) \<Longrightarrow>
   unvisited P (listAccept P ns s) \<le> unvisited P s"
  by (rule unvisited_mono) (rule visited_mono_dom)

lemma unvisited_insert_cases:
  "d \<notin> m_visitedCallables s \<Longrightarrow>
   unvisited P (s\<lparr>m_visitedCallables := insert d (m_visitedCallables s)\<rparr>) < unvisited P s
   \<or> declWeight (lookupDecl P d) = 0"
  by (cases "d \<in> fst ` set (declarations P)")
     (simp_all add: unvisited_insert lookupDecl_None_weight)

termination accept
  apply (relation "inv_image (less_than <*lex*> less_than) walkMeasure")
  subgoal by (intro wf_inv_image wf_lex_prod wf_less_than)
  subgoal for P loc referencedDeclaration lValueRequested ordinaryLAssignment s x2 x
    using unvisited_insert_cases[where d=x and s=s and P=P]
      unvisited_insert_le[where d=x and s=s and P=P] by auto
  subgoal by simp
  subgoal for P expression ty s x x2
    using unvisited_insert_cases[where d=x2 and s=x and P=P]
      unvisited_insert_le[where d=x2 and s=x and P=P]
      unvisited_accept_dom[of P expression s] by auto
  subgoal by simp
  subgoal for P condition trueStatement falseStatement s x xa
    using unvisited_accept_dom[of P condition s] by auto
  subgoal for P condition trueStatement falseStatement s x xa xb x2
    using unvisited_accept_dom[of P condition s]
      unvisited_accept_dom[of P trueStatement "xa\<lparr>m_inBranch := True\<rparr>"] by auto
  subgoal by simp
  subgoal for P condition body s x xa
    using unvisited_accept_dom[of P condition "s\<lparr>m_inLoop := True\<rparr>"] by auto
  subgoal by simp
  subgoal by simp
  subgoal by simp
  subgoal by simp
  subgoal for P n ns s
    using unvisited_accept_dom[of P n s] by auto
  subgoal by simp
  subgoal for P d s x2 x1 x xa xb x2a
    using unvisited_listAccept_dom[of P "fd_modifiers x1" xa] by auto
  subgoal by simp
  done


declare analyseCallable.simps [simp del]

subsection \<open>The driver\<close>

text \<open>
  \<^verbatim>\<open>analyze\<close>. A failed \<^verbatim>\<open>solAssert\<close> throws and ends the analysis: it is the
  result \<open>Inl InternalCompilerError\<close>. The first loop walks the initializers and
  records their variables; the second goes through the linearized base contracts in
  reverse: constructor and base-constructor arguments in construction context, then
  the sweep over the functions and modifiers that are not in the visited set.
\<close>

datatype HardFailure = InternalCompilerError

fun initializeStateVariables ::
  "Program \<Rightarrow> decl_id list \<Rightarrow> ImmutableValidator \<Rightarrow> HardFailure + ImmutableValidator" where
  "initializeStateVariables P [] s = Inr s"
| "initializeStateVariables P (v # vs) s =
     (case variableAt P v of
        None \<Rightarrow> initializeStateVariables P vs s
      | Some stateVar \<Rightarrow>
          (case vd_value stateVar of
             None \<Rightarrow> initializeStateVariables P vs s
           | Some initializer \<Rightarrow>
               (let s1 = accept P initializer s in
                if v \<in> m_initializedStateVariables s1 then Inl InternalCompilerError
                else initializeStateVariables P vs
                       (s1\<lparr>m_initializedStateVariables := insert v (m_initializedStateVariables s1)\<rparr>))))"

fun acceptBaseArguments :: "Program \<Rightarrow> node list option list \<Rightarrow> ImmutableValidator \<Rightarrow> ImmutableValidator" where
  "acceptBaseArguments P [] s = s"
| "acceptBaseArguments P (inheritSpec # rest) s =
     acceptBaseArguments P rest
       (case inheritSpec of Some args \<Rightarrow> listAccept P args s | None \<Rightarrow> s)"

fun sweepCallables :: "Program \<Rightarrow> decl_id list \<Rightarrow> ImmutableValidator \<Rightarrow> ImmutableValidator" where
  "sweepCallables P [] s = s"
| "sweepCallables P (d # ds) s =
     sweepCallables P ds (if d \<notin> m_visitedCallables s then analyseCallable P d s else s)"

definition analyzeContract :: "Program \<Rightarrow> ContractDefinition \<Rightarrow> ImmutableValidator \<Rightarrow> ImmutableValidator" where
  "analyzeContract P contract s =
     (let s1 = s\<lparr>m_inConstructionContext := True\<rparr>;
          s2 = (case cd_constructor contract of
                  Some ctor \<Rightarrow>
                    (let s' = analyseCallable P ctor s1
                     in s'\<lparr>m_visitedCallables := insert ctor (m_visitedCallables s')\<rparr>)
                | None \<Rightarrow> s1);
          s3 = acceptBaseArguments P (cd_baseContracts contract) s2;
          s4 = s3\<lparr>m_inConstructionContext := False\<rparr>;
          s5 = sweepCallables P (cd_definedFunctions contract) s4
      in sweepCallables P (cd_functionModifiers contract) s5)"

fun analyzeContracts :: "Program \<Rightarrow> ContractDefinition list \<Rightarrow> ImmutableValidator \<Rightarrow> ImmutableValidator" where
  "analyzeContracts P [] s = s"
| "analyzeContracts P (contract # rest) s = analyzeContracts P rest (analyzeContract P contract s)"

definition analyze :: "Program \<Rightarrow> ImmutableValidator \<Rightarrow> HardFailure + ImmutableValidator" where
  "analyze P s =
     (case initializeStateVariables P (stateVariablesIncludingInherited P)
             (s\<lparr>m_inConstructionContext := True\<rparr>) of
        Inl failure \<Rightarrow> Inl failure
      | Inr s1 \<Rightarrow>
          Inr (checkAllVariablesInitialized P (contractLocation P)
                 (analyzeContracts P (rev (linearizedBaseContracts P)) s1)))"

text \<open>
  Modelled from the spec: the header with the initial values of the members is not
  among the sources; the sets are created fresh for each contract analysis, the flags
  are clear and no constructor is current.
\<close>

definition freshValidator :: ImmutableValidator where
  "freshValidator =
     \<lparr>m_inConstructionContext = False, m_inBranch = False, m_inLoop = False,
      m_currentConstructor = None, m_visitedCallables = {}, m_initializedStateVariables = {},
      m_errorReporter = [], walkedBodies = []\<rparr>"


subsection \<open>Example programs\<close>

definition immutableVar :: "nat \<Rightarrow> node option \<Rightarrow> SourceLocation \<Rightarrow> Declaration" where
  "immutableVar contract initializer loc =
     VariableDecl \<lparr>vd_isStateVariable = True, vd_immutable = True, vd_contract = contract,
                   vd_value = initializer, vd_location = loc\<rparr>"

text \<open>
  The syntax test \<^verbatim>\<open>ctor_initialization_indirect_reading.sol\<close>:
  \<^verbatim>\<open>contract C { uint immutable x; constructor() public { x = f(); }
  function f() public pure returns (uint) { return 3 + x; } }\<close>.
  Declaration 1 is \<^verbatim>\<open>x\<close>, 2 the constructor, 3 the function \<^verbatim>\<open>f\<close>.
\<close>

definition indirectReadingConstructor :: FunctionDefinition where
  "indirectReadingConstructor =
     \<lparr>fd_name = [], fd_isConstructor = True, fd_virtualSemantics = False,
      fd_contract = 0, fd_parameterTypes = [], fd_returnTypes = [],
      fd_modifiers = [],
      fd_body = Some (OtherNode [OtherNode [OtherNode
                  [Identifier (70, 71) (Some 1) True True,
                   OtherNode [Identifier (74, 75) (Some 3) False False]]]])\<rparr>"

definition indirectReading :: Program where
  "indirectReading =
     \<lparr>declarations =
        [(1, immutableVar 0 None (17, 33)),
         (2, FunctionDef indirectReadingConstructor),
         (3, FunctionDef
               \<lparr>fd_name = ''f'', fd_isConstructor = False, fd_virtualSemantics = False,
                fd_contract = 0, fd_parameterTypes = [], fd_returnTypes = [''uint256''],
                fd_modifiers = [],
                fd_body = Some (OtherNode [Return (133, 145) (Some (OtherNode
                            [OtherNode [], Identifier (143, 144) (Some 1) False False]))])\<rparr>)],
      stateVariablesIncludingInherited = [1],
      linearizedBaseContracts =
        [\<lparr>cd_constructor = Some 2, cd_baseContracts = [],
          cd_definedFunctions = [2, 3], cd_functionModifiers = []\<rparr>],
      contractLocation = (0, 147)\<rparr>"

text \<open>
  The syntax test \<^verbatim>\<open>multiple_inheritance_virtual_functions_with_super.sol\<close>:
  contract \<^verbatim>\<open>A\<close> (10) declares the virtual \<^verbatim>\<open>f\<close> (1); contract \<^verbatim>\<open>B\<close> (11)
  declares \<^verbatim>\<open>x\<close> (2), its constructor (3) with \<^verbatim>\<open>x = xInit()\<close>, the virtual
  \<^verbatim>\<open>xInit\<close> (4) returning \<^verbatim>\<open>f()\<close> and the virtual \<^verbatim>\<open>f\<close> (5);
  contract \<^verbatim>\<open>C is A, B\<close> (12) overrides \<^verbatim>\<open>xInit\<close> (6) by \<^verbatim>\<open>super.xInit()\<close>
  and \<^verbatim>\<open>f\<close> (7) by \<^verbatim>\<open>return x\<close>. Declaration 8 is the magic variable
  \<^verbatim>\<open>super\<close>. The analysed contract is \<^verbatim>\<open>C\<close>, linearized as C, B, A.
\<close>

definition uintFunction :: "string \<Rightarrow> bool \<Rightarrow> nat \<Rightarrow> node \<Rightarrow> Declaration" where
  "uintFunction name isVirtual contract body =
     FunctionDef
       \<lparr>fd_name = name, fd_isConstructor = False, fd_virtualSemantics = isVirtual,
        fd_contract = contract, fd_parameterTypes = [], fd_returnTypes = [''uint256''],
        fd_modifiers = [], fd_body = Some body\<rparr>"

definition virtualSuper :: Program where
  "virtualSuper =
     \<lparr>declarations =
        [(1, uintFunction ''f'' True 10 (OtherNode [Return (64, 72) (Some (OtherNode []))])),
         (2, immutableVar 11 None (95, 111)),
         (3, FunctionDef
               \<lparr>fd_name = [], fd_isConstructor = True, fd_virtualSemantics = False,
                fd_contract = 11, fd_parameterTypes = [], fd_returnTypes = [],
                fd_modifiers = [],
                fd_body = Some (OtherNode [OtherNode [OtherNode
                            [Identifier (149, 150) (Some 2) True True,
                             OtherNode [Identifier (153, 158) (Some 4) False False]]]])\<rparr>),
         (4, uintFunction ''xInit'' True 11
               (OtherNode [Return (231, 241) (Some (OtherNode
                  [Identifier (238, 239) (Some 5) False False]))])),
         (5, uintFunction ''f'' True 11 (OtherNode [Return (301, 309) (Some (OtherNode []))])),
         (6, uintFunction ''xInit'' False 12
               (OtherNode [Return (399, 419) (Some (OtherNode
                  [MemberAccess (Identifier (406, 411) (Some 8) False False)
                     (FunctionType Internal (Some 4))]))])),
         (7, uintFunction ''f'' False 12
               (OtherNode [Return (493, 501) (Some (Identifier (500, 501) (Some 2) False False))])),
         (8, OtherDeclaration)],
      stateVariablesIncludingInherited = [2],
      linearizedBaseContracts =
        [\<lparr>cd_constructor = None, cd_baseContracts = [None, None],
          cd_definedFunctions = [6, 7], cd_functionModifiers = []\<rparr>,
         \<lparr>cd_constructor = Some 3, cd_baseContracts = [],
          cd_definedFunctions = [3, 4, 5], cd_functionModifiers = []\<rparr>,
         \<lparr>cd_constructor = None, cd_baseContracts = [],
          cd_definedFunctions = [1], cd_functionModifiers = []\<rparr>],
      contractLocation = (315, 510)\<rparr>"

text \<open>
  A modifier that assigns an immutable variable and returns, on a constructor:
  \<^verbatim>\<open>contract C { uint immutable x; modifier m() { x = 1; _; return; }
  constructor() m public { } }\<close>.
  Declaration 1 is \<^verbatim>\<open>x\<close>, 2 the modifier \<^verbatim>\<open>m\<close>, 3 the constructor.
\<close>

definition modifierInitBody :: node where
  "modifierInitBody =
     OtherNode
       [OtherNode [OtherNode [Identifier (54, 55) (Some 1) True True, OtherNode []]],
        OtherNode [],
        Return (64, 71) None]"

definition modifierInit :: Program where
  "modifierInit =
     \<lparr>declarations =
        [(1, immutableVar 0 None (17, 33)),
         (2, ModifierDef \<lparr>md_name = ''m'', md_virtualSemantics = False,
                          md_body = modifierInitBody\<rparr>),
         (3, FunctionDef
               \<lparr>fd_name = [], fd_isConstructor = True, fd_virtualSemantics = False,
                fd_contract = 0, fd_parameterTypes = [], fd_returnTypes = [],
                fd_modifiers = [OtherNode [Identifier (92, 93) (Some 2) False False]],
                fd_body = Some (OtherNode [])\<rparr>)],
      stateVariablesIncludingInherited = [1],
      linearizedBaseContracts =
        [\<lparr>cd_constructor = Some 3, cd_baseContracts = [],
          cd_definedFunctions = [3], cd_functionModifiers = [2]\<rparr>],
      contractLocation = (0, 106)\<rparr>"

text \<open>
  A function that calls itself and is first reached by the sweep of the driver:
  \<^verbatim>\<open>contract C { uint immutable x; function f() internal { x = 1; f(); } }\<close>.
  Declaration 1 is \<^verbatim>\<open>x\<close>, 2 the function \<^verbatim>\<open>f\<close>.
\<close>

definition recursiveFunction :: Program where
  "recursiveFunction =
     \<lparr>declarations =
        [(1, immutableVar 0 None (17, 33)),
         (2, FunctionDef
               \<lparr>fd_name = ''f'', fd_isConstructor = False, fd_virtualSemantics = False,
                fd_contract = 0, fd_parameterTypes = [], fd_returnTypes = [],
                fd_modifiers = [],
                fd_body = Some (OtherNode
                  [OtherNode [OtherNode [Identifier (63, 64) (Some 1) True True, OtherNode []]],
                   OtherNode [OtherNode [Identifier (70, 71) (Some 2) False False]]])\<rparr>)],
      stateVariablesIncludingInherited = [1],
      linearizedBaseContracts =
        [\<lparr>cd_constructor = None, cd_baseContracts = [],
          cd_definedFunctions = [2], cd_functionModifiers = []\<rparr>],
      contractLocation = (0, 78)\<rparr>"

text \<open>
  An immutable variable with an initializer that is assigned by a function called from
  the initializer of an earlier variable:
  \<^verbatim>\<open>contract C { uint immutable x = f(); uint immutable y = 2;
  function f() internal returns (uint) { y = 5; return 1; } }\<close>.
  Declaration 1 is \<^verbatim>\<open>x\<close>, 2 is \<^verbatim>\<open>y\<close>, 3 the function \<^verbatim>\<open>f\<close>.
\<close>

definition assignedBeforeInitializer :: Program where
  "assignedBeforeInitializer =
     \<lparr>declarations =
        [(1, immutableVar 0 (Some (OtherNode [Identifier (36, 37) (Some 3) False False])) (17, 39)),
         (2, immutableVar 0 (Some (OtherNode [])) (45, 65)),
         (3, uintFunction ''f'' False 0
               (OtherNode
                  [OtherNode [OtherNode [Identifier (110, 111) (Some 2) True True, OtherNode []]],
                   Return (117, 126) (Some (OtherNode []))]))],
      stateVariablesIncludingInherited = [1, 2],
      linearizedBaseContracts =
        [\<lparr>cd_constructor = None, cd_baseContracts = [],
          cd_definedFunctions = [3], cd_functionModifiers = []\<rparr>],
      contractLocation = (0, 130)\<rparr>"

text \<open>
  The syntax test whose expectation is the diagnostic at 126-127:
  \<^verbatim>\<open>contract C { uint immutable x; constructor() public { initX(); }
  function initX() internal { x = 3; } }\<close>.
  Declaration 1 is \<^verbatim>\<open>x\<close>, 2 the constructor, 3 the function \<^verbatim>\<open>initX\<close>.
\<close>

definition initInFunction :: Program where
  "initInFunction =
     \<lparr>declarations =
        [(1, immutableVar 0 None (17, 33)),
         (2, FunctionDef
               \<lparr>fd_name = [], fd_isConstructor = True, fd_virtualSemantics = False,
                fd_contract = 0, fd_parameterTypes = [], fd_returnTypes = [],
                fd_modifiers = [],
                fd_body = Some (OtherNode [OtherNode [OtherNode
                            [Identifier (70, 75) (Some 3) False False]]])\<rparr>),
         (3, FunctionDef
               \<lparr>fd_name = ''initX'', fd_isConstructor = False, fd_virtualSemantics = False,
                fd_contract = 0, fd_parameterTypes = [], fd_returnTypes = [],
                fd_modifiers = [],
                fd_body = Some (OtherNode [OtherNode [OtherNode
                            [Identifier (126, 127) (Some 1) True True, OtherNode []]]])\<rparr>)],
      stateVariablesIncludingInherited = [1],
      linearizedBaseContracts =
        [\<lparr>cd_constructor = Some 2, cd_baseContracts = [],
          cd_definedFunctions = [2, 3], cd_functionModifiers = []\<rparr>],
      contractLocation = (0, 137)\<rparr>"

text \<open>
  The syntax test \<^verbatim>\<open>function_initialization_reading.sol\<close>:
  \<^verbatim>\<open>contract C { uint immutable x = f();
  function f() public pure returns (uint) { return 3 + x; } }\<close>.
  Declaration 1 is \<^verbatim>\<open>x\<close>, 2 the function \<^verbatim>\<open>f\<close>.
\<close>

definition initializerReading :: Program where
  "initializerReading =
     \<lparr>declarations =
        [(1, immutableVar 0 (Some (OtherNode [Identifier (36, 37) (Some 2) False False])) (17, 39)),
         (2, uintFunction ''f'' False 0
               (OtherNode [Return (89, 101) (Some (OtherNode
                  [OtherNode [], Identifier (99, 100) (Some 1) False False]))]))],
      stateVariablesIncludingInherited = [1],
      linearizedBaseContracts =
        [\<lparr>cd_constructor = None, cd_baseContracts = [],
          cd_definedFunctions = [2], cd_functionModifiers = []\<rparr>],
      contractLocation = (0, 103)\<rparr>"

text \<open>
  The syntax test \<^verbatim>\<open>function_pointer_reading.sol\<close>:
  \<^verbatim>\<open>contract B { uint immutable x;
  constructor(function() internal returns(uint) fp) internal { x = fp(); } }
  contract C is B(C.f) { function f() internal returns(uint) { return x + 2; } }\<close>.
  Declaration 1 is \<^verbatim>\<open>x\<close> (of contract 20), 2 the constructor of \<^verbatim>\<open>B\<close>,
  3 the function \<^verbatim>\<open>f\<close> of \<^verbatim>\<open>C\<close> (contract 21), 4 the parameter \<^verbatim>\<open>fp\<close>,
  5 the contract \<^verbatim>\<open>C\<close> as a declaration. The analysed contract is \<^verbatim>\<open>C\<close>.
\<close>

definition functionPointerReading :: Program where
  "functionPointerReading =
     \<lparr>declarations =
        [(1, immutableVar 20 None (17, 33)),
         (2, FunctionDef
               \<lparr>fd_name = [], fd_isConstructor = True, fd_virtualSemantics = False,
                fd_contract = 20,
                fd_parameterTypes = [''function () returns (uint256)''], fd_returnTypes = [],
                fd_modifiers = [],
                fd_body = Some (OtherNode [OtherNode [OtherNode
                            [Identifier (109, 110) (Some 1) True True,
                             OtherNode [Identifier (113, 115) (Some 4) False False]]]])\<rparr>),
         (3, uintFunction ''f'' False 21
               (OtherNode [Return (193, 205) (Some (OtherNode
                  [Identifier (200, 201) (Some 1) False False, OtherNode []]))])),
         (4, VariableDecl \<lparr>vd_isStateVariable = False, vd_immutable = False, vd_contract = 20,
                           vd_value = None, vd_location = (52, 88)\<rparr>),
         (5, OtherDeclaration)],
      stateVariablesIncludingInherited = [1],
      linearizedBaseContracts =
        [\<lparr>cd_constructor = None,
          cd_baseContracts =
            [Some [MemberAccess (Identifier (144, 145) (Some 5) False False)
                     (FunctionType Internal (Some 3))]],
          cd_definedFunctions = [3], cd_functionModifiers = []\<rparr>,
         \<lparr>cd_constructor = Some 2, cd_baseContracts = [],
          cd_definedFunctions = [2], cd_functionModifiers = []\<rparr>],
      contractLocation = (128, 208)\<rparr>"

definition inConstruction :: ImmutableValidator where
  "inConstruction = freshValidator\<lparr>m_inConstructionContext := True\<rparr>"

subsection \<open>The override resolver as the specification words it\<close>

definition signatureMatches :: "Program \<Rightarrow> FunctionDefinition \<Rightarrow> decl_id \<Rightarrow> bool" where
  "signatureMatches P original f =
     (case functionAt P f of
        Some candidate \<Rightarrow>
          fd_name candidate = fd_name original
          \<and> fd_parameterTypes candidate = fd_parameterTypes original
          \<and> fd_returnTypes candidate = fd_returnTypes original
      | None \<Rightarrow> False)"

definition nameMatches :: "Program \<Rightarrow> string \<Rightarrow> decl_id \<Rightarrow> bool" where
  "nameMatches P name m =
     (case modifierAt P m of Some candidate \<Rightarrow> md_name candidate = name | None \<Rightarrow> False)"

definition find_final_override :: "Program \<Rightarrow> decl_id \<Rightarrow> decl_id" where
  "find_final_override P callable =
     (case lookupDecl P callable of
        Some (FunctionDef original) \<Rightarrow>
          if \<not> fd_virtualSemantics original then callable
          else (case find (signatureMatches P original)
                       (concat (map cd_definedFunctions (linearizedBaseContracts P))) of
                  Some f \<Rightarrow> f
                | None \<Rightarrow> callable)
      | Some (ModifierDef original) \<Rightarrow>
          if \<not> md_virtualSemantics original then callable
          else (case find (nameMatches P (md_name original))
                       (concat (map cd_functionModifiers (linearizedBaseContracts P))) of
                  Some m \<Rightarrow> m
                | None \<Rightarrow> callable)
      | _ \<Rightarrow> callable)"

subsection \<open>The completeness check as the specification words it\<close>

definition uninitializedImmutables :: "Program \<Rightarrow> decl_id set \<Rightarrow> decl_id list \<Rightarrow> VariableDeclaration list" where
  "uninitializedImmutables P initialized vs =
     List.map_filter
       (\<lambda>v. case variableAt P v of
              Some varDecl \<Rightarrow>
                if vd_immutable varDecl \<and> v \<notin> initialized then Some varDecl else None
            | None \<Rightarrow> None)
       vs"

definition incompleteConstruction :: "SourceLocation \<Rightarrow> VariableDeclaration \<Rightarrow> Diagnostic" where
  "incompleteConstruction loc varDecl =
     \<lparr>diag_kind = IncompleteConstruction, diag_location = loc,
      diag_secondary = Some (vd_location varDecl)\<rparr>"

subsection \<open>Entering a callable\<close>

definition enteredConstructor :: "Program \<Rightarrow> decl_id \<Rightarrow> decl_id option" where
  "enteredConstructor P d =
     (case lookupDecl P d of
        Some (FunctionDef funcDef) \<Rightarrow> if fd_isConstructor funcDef then Some d else None
      | _ \<Rightarrow> None)"

definition walkCallable :: "Program \<Rightarrow> decl_id \<Rightarrow> ImmutableValidator \<Rightarrow> ImmutableValidator" where
  "walkCallable P d s =
     (case lookupDecl P d of
        Some (FunctionDef funcDef) \<Rightarrow>
          (let s2 = listAccept P (fd_modifiers funcDef) s in
           case fd_body funcDef of
             Some body \<Rightarrow> accept P body (s2\<lparr>walkedBodies := walkedBodies s2 @ [d]\<rparr>)
           | None \<Rightarrow> s2)
      | Some (ModifierDef modDef) \<Rightarrow>
          accept P (md_body modDef) (s\<lparr>walkedBodies := walkedBodies s @ [d]\<rparr>)
      | _ \<Rightarrow> s)"

subsection \<open>Nodes visited inside a body\<close>

text \<open>
  \<open>visits P root s n s'\<close>: while \<open>root\<close> is walked from state \<open>s\<close>, the node \<open>n\<close>,
  which stands inside \<open>root\<close> itself (call edges are not followed), is visited in state
  \<open>s'\<close>. The states are those the walk of \<open>accept\<close> passes on.
\<close>

inductive visits :: "Program \<Rightarrow> node \<Rightarrow> ImmutableValidator \<Rightarrow> node \<Rightarrow> ImmutableValidator \<Rightarrow> bool"
  for P :: Program
where
  visitsSelf: "visits P n s n s"
| visitsMemberExpression:
    "visits P expression s n s' \<Longrightarrow> visits P (MemberAccess expression ty) s n s'"
| visitsCondition:
    "visits P condition s n s' \<Longrightarrow>
     visits P (IfStatement condition trueStatement falseStatement) s n s'"
| visitsTrueStatement:
    "visits P trueStatement ((accept P condition s)\<lparr>m_inBranch := True\<rparr>) n s' \<Longrightarrow>
     visits P (IfStatement condition trueStatement falseStatement) s n s'"
| visitsFalseStatement:
    "visits P falseStatement
       (accept P trueStatement ((accept P condition s)\<lparr>m_inBranch := True\<rparr>)) n s' \<Longrightarrow>
     visits P (IfStatement condition trueStatement (Some falseStatement)) s n s'"
| visitsLoopCondition:
    "visits P condition (s\<lparr>m_inLoop := True\<rparr>) n s' \<Longrightarrow>
     visits P (WhileStatement condition body) s n s'"
| visitsLoopBody:
    "visits P body (accept P condition (s\<lparr>m_inLoop := True\<rparr>)) n s' \<Longrightarrow>
     visits P (WhileStatement condition body) s n s'"
| visitsReturnExpression:
    "visits P retExpr s n s' \<Longrightarrow> visits P (Return loc (Some retExpr)) s n s'"
| visitsChild:
    "visits P child (listAccept P before s) n s' \<Longrightarrow>
     visits P (OtherNode (before @ child # after)) s n s'"

subsection \<open>Observations on a state\<close>

text \<open>
  The members the walk saves and restores, and the diagnostics a step has added.
\<close>

definition walkContext :: "ImmutableValidator \<Rightarrow> bool \<times> bool \<times> bool \<times> decl_id option" where
  "walkContext s = (m_inConstructionContext s, m_inBranch s, m_inLoop s, m_currentConstructor s)"

definition newErrors :: "ImmutableValidator \<Rightarrow> ImmutableValidator \<Rightarrow> Diagnostic list" where
  "newErrors s s' = drop (length (m_errorReporter s)) (m_errorReporter s')"

definition diagnostic :: "ErrorKind \<Rightarrow> SourceLocation \<Rightarrow> Diagnostic" where
  "diagnostic k loc = \<lparr>diag_kind = k, diag_location = loc, diag_secondary = None\<rparr>"

fun isLocationError :: "Diagnostic \<Rightarrow> bool" where
  "isLocationError e =
     (diag_kind e = InvalidInitLocation \<or> diag_kind e = WrongContractInit
      \<or> diag_kind e = InitInLoop \<or> diag_kind e = InitInBranch)"

section \<open>Context frame of the walk\<close>

lemma walkContext_update [simp]:
  "walkContext (s\<lparr>m_visitedCallables := vis\<rparr>) = walkContext s"
  "walkContext (s\<lparr>m_initializedStateVariables := ini\<rparr>) = walkContext s"
  "walkContext (s\<lparr>m_errorReporter := errs\<rparr>) = walkContext s"
  "walkContext (s\<lparr>walkedBodies := w\<rparr>) = walkContext s"
  "walkContext (typeError k loc sec s) = walkContext s"
  by (simp_all add: walkContext_def)

lemma walkContext_restore:
  "walkContext s' = walkContext (s\<lparr>m_inBranch := b\<rparr>) \<Longrightarrow> walkContext (s'\<lparr>m_inBranch := m_inBranch s\<rparr>) = walkContext s"
  "walkContext s' = walkContext (s\<lparr>m_inLoop := b\<rparr>) \<Longrightarrow> walkContext (s'\<lparr>m_inLoop := m_inLoop s\<rparr>) = walkContext s"
  "walkContext s' = walkContext (s\<lparr>m_currentConstructor := c\<rparr>) \<Longrightarrow>
     walkContext (s'\<lparr>m_currentConstructor := m_currentConstructor s\<rparr>) = walkContext s"
  by (simp_all add: walkContext_def)

lemma walkContext_cong_update:
  "walkContext s' = walkContext s \<Longrightarrow> walkContext (s'\<lparr>m_inBranch := b\<rparr>) = walkContext (s\<lparr>m_inBranch := b\<rparr>)"
  "walkContext s' = walkContext s \<Longrightarrow> walkContext (s'\<lparr>m_inLoop := b\<rparr>) = walkContext (s\<lparr>m_inLoop := b\<rparr>)"
  by (simp_all add: walkContext_def)

lemma checkVariables_walkContext [simp]: "walkContext (checkVariables P loc vs s) = walkContext s"
  by (induction vs arbitrary: s) (auto split: option.splits Declaration.splits)

lemma checkAll_walkContext [simp]: "walkContext (checkAllVariablesInitialized P loc s) = walkContext s"
  by (simp add: checkAllVariablesInitialized_def)

lemma locationCheck_walkContext [simp]: "walkContext (locationCheck P loc v s) = walkContext s"
  by (simp add: locationCheck_def split: option.splits)

lemma visitVariableIdentifier_walkContext [simp]:
  "walkContext (visitVariableIdentifier P loc d lv ord s) = walkContext s"
  by (simp add: visitVariableIdentifier_def Let_def split: option.splits Declaration.splits)

lemma walk_walkContext:
  "walkContext (accept P n s) = walkContext s"
  "walkContext (listAccept P ns s) = walkContext s"
  "walkContext (analyseCallable P d s) = walkContext s"
proof (induct P n s and P ns s and P d s rule: accept_listAccept_analyseCallable.induct)
  case (1 P loc referencedDeclaration lValueRequested ordinaryLAssignment s)
  show ?case
    using "1.hyps"[OF _ _ refl]
    by (auto simp: Let_def split: option.splits)
next
  case (2 P expression ty s)
  show ?case
    using "2.hyps"(1) "2.hyps"(2)[OF refl]
    by (auto simp: Let_def split: option.splits)
next
  case (3 P condition trueStatement falseStatement s)
  let ?s1 = "accept P condition s"
  let ?s2 = "accept P trueStatement (?s1\<lparr>m_inBranch := True\<rparr>)"
  have a: "walkContext ?s1 = walkContext s" using "3.hyps"(1)[OF refl] .
  have b: "walkContext ?s2 = walkContext (s\<lparr>m_inBranch := True\<rparr>)"
    using "3.hyps"(2)[OF refl refl] walkContext_cong_update(1)[OF a] by simp
  show ?case
  proof (cases falseStatement)
    case None
    then show ?thesis using walkContext_restore(1)[OF b] by (simp add: Let_def)
  next
    case (Some f)
    have c: "walkContext (accept P f ?s2) = walkContext (s\<lparr>m_inBranch := True\<rparr>)"
      using "3.hyps"(3)[OF refl refl refl Some] b by simp
    show ?thesis using Some walkContext_restore(1)[OF c] by (simp add: Let_def)
  qed
next
  case (4 P condition body s)
  let ?s1 = "accept P condition (s\<lparr>m_inLoop := True\<rparr>)"
  have a: "walkContext ?s1 = walkContext (s\<lparr>m_inLoop := True\<rparr>)" using "4.hyps"(1)[OF refl] .
  have b: "walkContext (accept P body ?s1) = walkContext (s\<lparr>m_inLoop := True\<rparr>)"
    using "4.hyps"(2)[OF refl refl] a by simp
  show ?case using walkContext_restore(2)[OF b] by (simp add: Let_def)
next
  case (5 P loc expression s)
  show ?case
    using "5.hyps"
    by (cases expression; cases "m_currentConstructor s = None") auto
next
  case (6 P children s)
  then show ?case by simp
next
  case (7 P s)
  show ?case by simp
next
  case (8 P n ns s)
  then show ?case by simp
next
  case (9 P d s)
  show ?case
  proof (cases "lookupDecl P d")
    case None
    then show ?thesis by (simp add: analyseCallable.simps)
  next
    case (Some decl)
    show ?thesis
    proof (cases decl)
      case (FunctionDef funcDef)
      let ?c = "if fd_isConstructor funcDef then Some d else None"
      let ?s1 = "s\<lparr>m_currentConstructor := ?c\<rparr>"
      let ?s2 = "listAccept P (fd_modifiers funcDef) ?s1"
      have a: "walkContext ?s2 = walkContext ?s1"
        using "9.hyps"(1)[OF Some FunctionDef refl refl] .
      show ?thesis
      proof (cases "fd_body funcDef")
        case None
        then show ?thesis
          using walkContext_restore(3)[OF a] Some FunctionDef
          by (simp add: analyseCallable.simps Let_def)
      next
        case (Some body)
        have b: "walkContext (accept P body (?s2\<lparr>walkedBodies := walkedBodies ?s2 @ [d]\<rparr>)) = walkContext ?s1"
          using "9.hyps"(2)[OF \<open>lookupDecl P d = Some decl\<close> FunctionDef refl refl refl Some] a
          by simp
        show ?thesis
          using walkContext_restore(3)[OF b] Some \<open>lookupDecl P d = Some decl\<close> FunctionDef
          by (simp add: analyseCallable.simps Let_def)
      qed
    next
      case (ModifierDef modDef)
      let ?s1 = "s\<lparr>m_currentConstructor := None\<rparr>"
      have b: "walkContext (accept P (md_body modDef) (?s1\<lparr>walkedBodies := walkedBodies ?s1 @ [d]\<rparr>)) = walkContext ?s1"
        using "9.hyps"(3)[OF Some ModifierDef refl refl] by simp
      show ?thesis
        using walkContext_restore(3)[OF b] Some ModifierDef
        by (simp add: analyseCallable.simps Let_def)
    qed (use Some in \<open>simp_all add: analyseCallable.simps\<close>)
  qed
qed


section \<open>Diagnostics emitted at a single visit\<close>

lemma newErrors_self [simp]: "newErrors s s = []"
  by (simp add: newErrors_def)

lemma newErrors_typeError [simp]:
  "newErrors s (typeError k loc None s) = [diagnostic k loc]"
  by (simp add: newErrors_def diagnostic_def)

lemma newErrors_append:
  "m_errorReporter s' = m_errorReporter s @ es \<Longrightarrow> newErrors s s' = es"
  by (simp add: newErrors_def)

lemma variable_not_callable:
  "variableAt P d = Some varDecl \<Longrightarrow> \<not> isCallable (lookupDecl P d)"
  by (auto simp: variableAt_def split: option.splits Declaration.splits)

lemma accept_variable_identifier:
  "variableAt P d = Some varDecl \<Longrightarrow>
   accept P (Identifier loc (Some d) lv ord) s = visitVariableIdentifier P loc d lv ord s"
  using variable_not_callable[of P d varDecl] by simp

lemma locationCheck_errors:
  "m_errorReporter (locationCheck P loc varDecl s) =
     m_errorReporter s @
       (case m_currentConstructor s of
          None \<Rightarrow> [diagnostic InvalidInitLocation loc]
        | Some ctor \<Rightarrow>
            if constructorContract P ctor \<noteq> Some (vd_contract varDecl)
            then [diagnostic WrongContractInit loc]
            else if m_inLoop s then [diagnostic InitInLoop loc]
            else if m_inBranch s then [diagnostic InitInBranch loc]
            else [])"
  by (cases "m_currentConstructor s") (simp_all add: locationCheck_def diagnostic_def)

lemma locationCheck_initialized [simp]:
  "m_initializedStateVariables (locationCheck P loc varDecl s) = m_initializedStateVariables s"
  by (simp add: locationCheck_def split: option.splits)

text \<open>
  C6. An identifier that refers to an immutable state variable and is not the target of
  an ordinary assignment (a read, or the target of a compound assignment) produces the
  diagnostic \<open>ImmutableReadDuringConstruction\<close> exactly when the construction-context
  flag is set at the reference; otherwise the visit changes nothing.
\<close>

theorem immutable_read_reported_iff_in_construction:
  assumes "variableAt P d = Some varDecl"
    and "vd_isStateVariable varDecl" and "vd_immutable varDecl"
    and "\<not> (lValueRequested \<and> ordinaryLAssignment)"
  shows "accept P (Identifier loc (Some d) lValueRequested ordinaryLAssignment) s =
           (if m_inConstructionContext s
            then typeError ImmutableReadDuringConstruction loc None s else s)
         \<and> newErrors s (accept P (Identifier loc (Some d) lValueRequested ordinaryLAssignment) s) =
             (if m_inConstructionContext s
              then [diagnostic ImmutableReadDuringConstruction loc] else [])"
  unfolding accept_variable_identifier[OF assms(1)]
  using assms by (auto simp: visitVariableIdentifier_def)


lemmas example_defs =
  indirectReading_def indirectReadingConstructor_def immutableVar_def uintFunction_def inConstruction_def freshValidator_def
  lookupDecl_def variableAt_def functionAt_def modifierAt_def

lemma indirectReading_x:
  "variableAt indirectReading 1 =
     Some \<lparr>vd_isStateVariable = True, vd_immutable = True, vd_contract = 0,
           vd_value = None, vd_location = (17, 33)\<rparr>"
  by (simp add: example_defs)

theorem immutable_read_reported_witness:
  "accept indirectReading (Identifier (143, 144) (Some 1) False False) inConstruction =
     typeError ImmutableReadDuringConstruction (143, 144) None inConstruction
   \<and> newErrors inConstruction
        (accept indirectReading (Identifier (143, 144) (Some 1) False False) inConstruction) =
       [diagnostic ImmutableReadDuringConstruction (143, 144)]"
  using immutable_read_reported_iff_in_construction[OF indirectReading_x,
      where lValueRequested=False and ordinaryLAssignment=False and loc="(143, 144)"
        and s=inConstruction]
  by (simp add: inConstruction_def freshValidator_def)

text \<open>
  C7. At an ordinary assignment to an immutable state variable the variable is recorded
  as initialized whatever the location checks reported, and the diagnostic
  \<open>DoubleInit\<close> is emitted at the identifier exactly when the variable was already
  recorded; it follows the diagnostics of the location checks.
\<close>

theorem assignment_records_variable:
  assumes "variableAt P d = Some varDecl"
    and "vd_isStateVariable varDecl" and "vd_immutable varDecl"
  shows "m_initializedStateVariables (accept P (Identifier loc (Some d) True True) s) =
           insert d (m_initializedStateVariables s)
         \<and> (diagnostic DoubleInit loc
              \<in> set (newErrors s (accept P (Identifier loc (Some d) True True) s))) =
             (d \<in> m_initializedStateVariables s)
         \<and> newErrors s (accept P (Identifier loc (Some d) True True) s) =
             newErrors s (locationCheck P loc varDecl s) @
             (if d \<in> m_initializedStateVariables s then [diagnostic DoubleInit loc] else [])"
proof -
  let ?s' = "accept P (Identifier loc (Some d) True True) s"
  let ?loc = "newErrors s (locationCheck P loc varDecl s)"
  have acc: "?s' = visitVariableIdentifier P loc d True True s"
    by (rule accept_variable_identifier[OF assms(1)])
  have ini: "m_initializedStateVariables ?s' = insert d (m_initializedStateVariables s)"
    unfolding acc using assms by (simp add: visitVariableIdentifier_def Let_def)
  have errs: "m_errorReporter ?s' =
      m_errorReporter (locationCheck P loc varDecl s) @
      (if d \<in> m_initializedStateVariables s then [diagnostic DoubleInit loc] else [])"
    unfolding acc using assms by (simp add: visitVariableIdentifier_def Let_def diagnostic_def)
  have new: "newErrors s ?s' =
      ?loc @ (if d \<in> m_initializedStateVariables s then [diagnostic DoubleInit loc] else [])"
    unfolding newErrors_def errs by (simp add: locationCheck_errors)
  have noDouble: "diagnostic DoubleInit loc \<notin> set ?loc"
    by (simp add: newErrors_def locationCheck_errors diagnostic_def split: option.splits)
  have iff: "(diagnostic DoubleInit loc \<in> set (newErrors s ?s')) = (d \<in> m_initializedStateVariables s)"
    unfolding new using noDouble by simp
  show ?thesis using ini iff new by simp
qed

theorem assignment_records_variable_witness:
  "m_initializedStateVariables
     (accept indirectReading (Identifier (70, 71) (Some 1) True True)
        (inConstruction\<lparr>m_initializedStateVariables := {1}\<rparr>)) = {1}
   \<and> diagnostic DoubleInit (70, 71)
       \<in> set (newErrors (inConstruction\<lparr>m_initializedStateVariables := {1}\<rparr>)
                (accept indirectReading (Identifier (70, 71) (Some 1) True True)
                   (inConstruction\<lparr>m_initializedStateVariables := {1}\<rparr>)))"
  using assignment_records_variable[OF indirectReading_x,
      where loc="(70, 71)" and s="inConstruction\<lparr>m_initializedStateVariables := {1}\<rparr>"]
  by simp

lemma at_most_one_location_error_chain:
  assumes "variableAt P d = Some varDecl"
    and "vd_isStateVariable varDecl" and "vd_immutable varDecl"
  shows "filter isLocationError (newErrors s (accept P (Identifier loc (Some d) True True) s)) =
           (case m_currentConstructor s of
              None \<Rightarrow> [diagnostic InvalidInitLocation loc]
            | Some ctor \<Rightarrow>
                if constructorContract P ctor \<noteq> Some (vd_contract varDecl)
                then [diagnostic WrongContractInit loc]
                else if m_inLoop s then [diagnostic InitInLoop loc]
                else if m_inBranch s then [diagnostic InitInBranch loc]
                else [])"
proof -
  let ?s' = "accept P (Identifier loc (Some d) True True) s"
  let ?chain = "case m_currentConstructor s of
              None \<Rightarrow> [diagnostic InvalidInitLocation loc]
            | Some ctor \<Rightarrow>
                if constructorContract P ctor \<noteq> Some (vd_contract varDecl)
                then [diagnostic WrongContractInit loc]
                else if m_inLoop s then [diagnostic InitInLoop loc]
                else if m_inBranch s then [diagnostic InitInBranch loc]
                else []"
  have acc: "?s' = visitVariableIdentifier P loc d True True s"
    by (rule accept_variable_identifier[OF assms(1)])
  have errs: "m_errorReporter ?s' =
      m_errorReporter s @ ?chain @
      (if d \<in> m_initializedStateVariables s then [diagnostic DoubleInit loc] else [])"
    unfolding acc using assms
    by (simp add: visitVariableIdentifier_def Let_def diagnostic_def locationCheck_errors)
  have new: "newErrors s ?s' =
      ?chain @ (if d \<in> m_initializedStateVariables s then [diagnostic DoubleInit loc] else [])"
    by (rule newErrors_append[OF errs])
  show ?thesis
    unfolding new by (simp add: diagnostic_def split: option.splits)
qed

text \<open>
  C8. At an ordinary assignment to an immutable state variable the location checks form
  one chain, tested in the order \<open>InvalidInitLocation\<close>, \<open>WrongContractInit\<close>,
  \<open>InitInLoop\<close>, \<open>InitInBranch\<close>, so at most one of the four is emitted; inside
  both a loop and a branch (in the constructor of the declaring contract) only
  \<open>InitInLoop\<close> is reported.
\<close>

theorem at_most_one_location_error:
  assumes "variableAt P d = Some varDecl"
    and "vd_isStateVariable varDecl" and "vd_immutable varDecl"
  shows "filter isLocationError (newErrors s (accept P (Identifier loc (Some d) True True) s)) =
           (case m_currentConstructor s of
              None \<Rightarrow> [diagnostic InvalidInitLocation loc]
            | Some ctor \<Rightarrow>
                if constructorContract P ctor \<noteq> Some (vd_contract varDecl)
                then [diagnostic WrongContractInit loc]
                else if m_inLoop s then [diagnostic InitInLoop loc]
                else if m_inBranch s then [diagnostic InitInBranch loc]
                else [])
         \<and> length (filter isLocationError
                     (newErrors s (accept P (Identifier loc (Some d) True True) s))) \<le> 1
         \<and> (m_currentConstructor s = Some ctor
              \<and> constructorContract P ctor = Some (vd_contract varDecl)
              \<and> m_inLoop s \<and> m_inBranch s \<longrightarrow>
            filter isLocationError (newErrors s (accept P (Identifier loc (Some d) True True) s)) =
              [diagnostic InitInLoop loc])"
  unfolding at_most_one_location_error_chain[OF assms]
  by (simp split: option.splits)

theorem at_most_one_location_error_witness:
  "filter isLocationError
     (newErrors (inConstruction\<lparr>m_inBranch := True, m_inLoop := True, m_currentConstructor := Some 2\<rparr>)
        (accept indirectReading (Identifier (70, 71) (Some 1) True True)
           (inConstruction\<lparr>m_inBranch := True, m_inLoop := True, m_currentConstructor := Some 2\<rparr>))) =
     [diagnostic InitInLoop (70, 71)]"
  using at_most_one_location_error[OF indirectReading_x,
      where loc="(70, 71)" and ctor=2
        and s="inConstruction\<lparr>m_inBranch := True, m_inLoop := True, m_currentConstructor := Some 2\<rparr>"]
  by (simp add: constructorContract_def example_defs)

text \<open>
  C2 as stated fails: the visit of a return statement outside a constructor returns
  \<open>true\<close>, so the generic traversal descends into the expression of the statement.
  Walking \<^verbatim>\<open>return x;\<close> with no current constructor, in construction context,
  reports the read of \<^verbatim>\<open>x\<close> inside the expression (and no completeness
  diagnostic, although \<^verbatim>\<open>x\<close> is not yet initialized).
\<close>

theorem return_outside_constructor_descends:
  "m_currentConstructor inConstruction = None
   \<and> newErrors inConstruction
        (accept indirectReading
           (Return (133, 145) (Some (Identifier (143, 144) (Some 1) False False)))
           inConstruction) =
       [diagnostic ImmutableReadDuringConstruction (143, 144)]"
  by (simp add: example_defs visitVariableIdentifier_def newErrors_def typeError_def diagnostic_def)

text \<open>
  C2, amended. A return statement visited while no constructor is current runs no
  completeness check; its expression, when present, is walked by the generic traversal,
  so the visit has exactly the effect of walking the expression.
\<close>

theorem return_outside_constructor:
  "m_currentConstructor s = None \<Longrightarrow>
   accept P (Return loc expression) s =
     (case expression of Some retExpr \<Rightarrow> accept P retExpr s | None \<Rightarrow> s)"
  by simp

theorem return_outside_constructor_witness:
  "accept indirectReading
     (Return (133, 145) (Some (Identifier (143, 144) (Some 1) False False))) inConstruction =
   accept indirectReading (Identifier (143, 144) (Some 1) False False) inConstruction"
  using return_outside_constructor[where s=inConstruction and P=indirectReading
      and loc="(133, 145)" and expression="Some (Identifier (143, 144) (Some 1) False False)"]
  by (simp add: inConstruction_def freshValidator_def)


section \<open>Override resolution\<close>

lemma find_append_option:
  "find p (xs @ ys) = (case find p xs of Some x \<Rightarrow> Some x | None \<Rightarrow> find p ys)"
  by (induction xs) auto

lemma scanFunctions_find:
  "scanFunctions P original fs = find (signatureMatches P original) fs"
  by (induction fs)
     (auto simp: signatureMatches_def hasEqualParameterTypes_def hasEqualReturnTypes_def
           split: option.splits)

lemma scanModifiers_find:
  "scanModifiers P name ms = find (nameMatches P name) ms"
  by (induction ms) (auto simp: nameMatches_def split: option.splits)

lemma scanContractsForFunction_find:
  "scanContractsForFunction P original cs =
     find (signatureMatches P original) (concat (map cd_definedFunctions cs))"
  by (induction cs) (simp_all add: scanFunctions_find find_append_option split: option.splits)

lemma scanContractsForModifier_find:
  "scanContractsForModifier P name cs =
     find (nameMatches P name) (concat (map cd_functionModifiers cs))"
  by (induction cs) (simp_all add: scanModifiers_find find_append_option split: option.splits)

text \<open>
  C5. \<open>findFinalOverride\<close> computes what the specification describes: a callable
  without virtual semantics is returned unchanged; for a virtual function the result is
  the first function, in the order of the linearized base contracts (most derived first,
  each contract's functions in their order), with the same name and equal parameter and
  return types; for a virtual modifier the first modifier with the same name in that
  order; and the callable itself when nothing matches.
\<close>

theorem findFinalOverride_refines_spec:
  "findFinalOverride P callable = find_final_override P callable"
  by (simp add: findFinalOverride_def find_final_override_def
        scanContractsForFunction_find scanContractsForModifier_find
      split: option.splits Declaration.splits)

theorem findFinalOverride_refines_spec_witness:
  "findFinalOverride virtualSuper 4 = 6 \<and> find_final_override virtualSuper 5 = 7
   \<and> findFinalOverride virtualSuper 6 = 6"
  using findFinalOverride_refines_spec[of virtualSuper 5]
  by (simp add: findFinalOverride_def virtualSuper_def uintFunction_def example_defs
        hasEqualParameterTypes_def hasEqualReturnTypes_def)


section \<open>The completeness check\<close>

lemma checkVariables_initialized [simp]:
  "m_initializedStateVariables (checkVariables P loc vs s) = m_initializedStateVariables s"
  by (induction vs arbitrary: s) (auto split: option.splits)

lemma uninitializedImmutables_Cons:
  "uninitializedImmutables P initialized (v # vs) =
     (case variableAt P v of
        Some varDecl \<Rightarrow>
          if vd_immutable varDecl \<and> v \<notin> initialized
          then varDecl # uninitializedImmutables P initialized vs
          else uninitializedImmutables P initialized vs
      | None \<Rightarrow> uninitializedImmutables P initialized vs)"
  by (simp add: uninitializedImmutables_def List.map_filter_simps split: option.splits)

lemma checkVariables_spec:
  "checkVariables P loc vs s =
     s\<lparr>m_errorReporter := m_errorReporter s @
          map (incompleteConstruction loc)
            (uninitializedImmutables P (m_initializedStateVariables s) vs)\<rparr>"
proof (induction vs arbitrary: s)
  case Nil
  show ?case by (simp add: uninitializedImmutables_def List.map_filter_simps)
next
  case (Cons v vs)
  show ?case
    by (cases "variableAt P v")
       (simp_all add: Cons.IH uninitializedImmutables_Cons typeError_def
          incompleteConstruction_def)
qed

text \<open>
  C9. The completeness check appends one \<open>IncompleteConstruction\<close> diagnostic, at the
  location it is given and with the declaration of the variable as secondary location,
  for every immutable variable among the state variables of the contract (inherited ones
  included) that is not recorded as initialized, and changes nothing else. It runs at a
  return statement visited while a constructor is current, after the expression of the
  statement has been walked, and it is the last step of an analysis that reaches its
  end, at the location of the contract.
\<close>

theorem completeness_check:
  "checkAllVariablesInitialized P loc s =
     s\<lparr>m_errorReporter := m_errorReporter s @
          map (incompleteConstruction loc)
            (uninitializedImmutables P (m_initializedStateVariables s)
               (stateVariablesIncludingInherited P))\<rparr>
   \<and> (m_currentConstructor s \<noteq> None \<longrightarrow>
        accept P (Return loc expression) s =
          checkAllVariablesInitialized P loc
            (case expression of Some retExpr \<Rightarrow> accept P retExpr s | None \<Rightarrow> s))
   \<and> (initializeStateVariables P (stateVariablesIncludingInherited P)
          (s\<lparr>m_inConstructionContext := True\<rparr>) = Inr s1 \<longrightarrow>
        analyze P s =
          Inr (checkAllVariablesInitialized P (contractLocation P)
                 (analyzeContracts P (rev (linearizedBaseContracts P)) s1)))"
  by (simp add: checkAllVariablesInitialized_def checkVariables_spec analyze_def)

theorem completeness_check_witness:
  "m_errorReporter
     (accept indirectReading (Return (60, 67) None) (inConstruction\<lparr>m_currentConstructor := Some 2\<rparr>)) =
     [\<lparr>diag_kind = IncompleteConstruction, diag_location = (60, 67),
       diag_secondary = Some (17, 33)\<rparr>]"
  using completeness_check[where P=indirectReading and loc="(60, 67)" and expression=None
      and s="inConstruction\<lparr>m_currentConstructor := Some 2\<rparr>"]
  by (simp add: uninitializedImmutables_def List.map_filter_simps incompleteConstruction_def
        example_defs)

section \<open>Context across call edges\<close>

lemma analyseCallable_walkCallable:
  "analyseCallable P d s =
     (walkCallable P d (s\<lparr>m_currentConstructor := enteredConstructor P d\<rparr>))
       \<lparr>m_currentConstructor := m_currentConstructor s\<rparr>"
  by (simp add: analyseCallable.simps walkCallable_def enteredConstructor_def Let_def
      split: option.splits Declaration.splits)

text \<open>
  C4. Entering a callable does not touch the flags \<open>m_inConstructionContext\<close>,
  \<open>m_inBranch\<close> and \<open>m_inLoop\<close>: the modifier invocations and the body are walked
  from the state of the call site with only \<open>m_currentConstructor\<close> replaced, by the
  entered declaration when it is a constructor and by none otherwise, and on exit
  \<open>m_currentConstructor\<close> has its value from the call site again (as have the flags).
  The three ways into a callable (an identifier, a member access, the sweep of the driver)
  hand over the state of the call site, changed at most in the visited set.
\<close>

theorem context_across_call_edges:
  "analyseCallable P d s =
     (walkCallable P d (s\<lparr>m_currentConstructor := enteredConstructor P d\<rparr>))
       \<lparr>m_currentConstructor := m_currentConstructor s\<rparr>
   \<and> walkContext (s\<lparr>m_currentConstructor := enteredConstructor P d\<rparr>) =
       (m_inConstructionContext s, m_inBranch s, m_inLoop s, enteredConstructor P d)
   \<and> (lookupDecl P d = Some (FunctionDef funcDef) \<longrightarrow>
        walkContext (listAccept P (fd_modifiers funcDef)
                       (s\<lparr>m_currentConstructor := enteredConstructor P d\<rparr>)) =
          (m_inConstructionContext s, m_inBranch s, m_inLoop s, enteredConstructor P d))
   \<and> walkContext (analyseCallable P d s) =
       (m_inConstructionContext s, m_inBranch s, m_inLoop s, m_currentConstructor s)
   \<and> (isCallable (lookupDecl P c) \<and> findFinalOverride P c \<notin> m_visitedCallables s \<longrightarrow>
        accept P (Identifier loc (Some c) lValueRequested ordinaryLAssignment) s =
          analyseCallable P (findFinalOverride P c)
            (s\<lparr>m_visitedCallables := insert (findFinalOverride P c) (m_visitedCallables s)\<rparr>))
   \<and> (internalCallTarget ty = Some d \<and> d \<notin> m_visitedCallables (accept P expression s) \<longrightarrow>
        accept P (MemberAccess expression ty) s =
          analyseCallable P d
            ((accept P expression s)
               \<lparr>m_visitedCallables := insert d (m_visitedCallables (accept P expression s))\<rparr>)
        \<and> walkContext (accept P expression s) =
            (m_inConstructionContext s, m_inBranch s, m_inLoop s, m_currentConstructor s))
   \<and> (d \<notin> m_visitedCallables s \<longrightarrow> sweepCallables P [d] s = analyseCallable P d s)"
proof -
  have ctx: "\<And>t. walkContext t =
      (m_inConstructionContext t, m_inBranch t, m_inLoop t, m_currentConstructor t)"
    by (simp add: walkContext_def)
  have entry: "walkContext (s\<lparr>m_currentConstructor := enteredConstructor P d\<rparr>) =
       (m_inConstructionContext s, m_inBranch s, m_inLoop s, enteredConstructor P d)"
    by (simp add: walkContext_def)
  have mods: "walkContext (listAccept P ms (s\<lparr>m_currentConstructor := enteredConstructor P d\<rparr>)) =
       (m_inConstructionContext s, m_inBranch s, m_inLoop s, enteredConstructor P d)" for ms
    unfolding walk_walkContext(2) by (rule entry)
  have exit: "walkContext (analyseCallable P d s) =
       (m_inConstructionContext s, m_inBranch s, m_inLoop s, m_currentConstructor s)"
    unfolding walk_walkContext(3) by (rule ctx)
  have expr: "walkContext (accept P expression s) =
       (m_inConstructionContext s, m_inBranch s, m_inLoop s, m_currentConstructor s)"
    unfolding walk_walkContext(1) by (rule ctx)
  show ?thesis
    using analyseCallable_walkCallable[of P d s] entry mods exit expr
    by (simp add: Let_def)
qed

theorem context_across_call_edges_witness:
  "walkContext (listAccept indirectReading (fd_modifiers indirectReadingConstructor)
                  (inConstruction\<lparr>m_inBranch := True, m_currentConstructor := Some 2\<rparr>)) =
     (True, True, False, Some 2)
   \<and> walkContext (analyseCallable indirectReading 2 (inConstruction\<lparr>m_inBranch := True\<rparr>)) =
       (True, True, False, None)
   \<and> sweepCallables indirectReading [2] (inConstruction\<lparr>m_inBranch := True\<rparr>) =
       analyseCallable indirectReading 2 (inConstruction\<lparr>m_inBranch := True\<rparr>)"
proof -
  let ?s = "inConstruction\<lparr>m_inBranch := True\<rparr>"
  have decl: "lookupDecl indirectReading 2 = Some (FunctionDef indirectReadingConstructor)"
    by (simp add: lookupDecl_def indirectReading_def)
  have entered: "enteredConstructor indirectReading 2 = Some 2"
    by (simp add: enteredConstructor_def decl indirectReadingConstructor_def)
  have flags: "m_inConstructionContext ?s" "m_inBranch ?s" "\<not> m_inLoop ?s"
    "m_currentConstructor ?s = None" "2 \<notin> m_visitedCallables ?s"
    by (simp_all add: inConstruction_def freshValidator_def)
  note edges = context_across_call_edges[where P=indirectReading and d=2
      and funcDef=indirectReadingConstructor
      and c=3 and ty=OtherType and expression="OtherNode []" and loc="(0, 0)"
      and lValueRequested=False and ordinaryLAssignment=False and s="?s"]
  from edges decl
  have a: "walkContext (listAccept indirectReading (fd_modifiers indirectReadingConstructor)
                  (?s\<lparr>m_currentConstructor := enteredConstructor indirectReading 2\<rparr>)) =
          (m_inConstructionContext ?s, m_inBranch ?s, m_inLoop ?s,
           enteredConstructor indirectReading 2)"
    by blast
  from edges
  have b: "walkContext (analyseCallable indirectReading 2 ?s) =
          (m_inConstructionContext ?s, m_inBranch ?s, m_inLoop ?s, m_currentConstructor ?s)"
    by blast
  from edges flags(5)
  have c: "sweepCallables indirectReading [2] ?s = analyseCallable indirectReading 2 ?s"
    by blast
  show ?thesis
    using a b c unfolding entered by (simp add: flags)
qed


section \<open>The syntax tests of the repository\<close>

lemmas walk_defs =
  analyze_def analyzeContract_def analyseCallable.simps findFinalOverride_def
  hasEqualParameterTypes_def hasEqualReturnTypes_def
  visitVariableIdentifier_def locationCheck_def constructorContract_def
  checkAllVariablesInitialized_def typeError_def diagnostic_def Let_def

lemma test_ctor_initialization_indirect_reading:
  "map_sum id m_errorReporter (analyze indirectReading freshValidator) =
     Inr [diagnostic ImmutableReadDuringConstruction (143, 144)]"
  by (simp add: walk_defs example_defs)

lemma test_function_initialization_reading:
  "map_sum id m_errorReporter (analyze initializerReading freshValidator) =
     Inr [diagnostic ImmutableReadDuringConstruction (99, 100)]"
  by (simp add: walk_defs initializerReading_def example_defs)

lemma test_function_pointer_reading:
  "map_sum id m_errorReporter (analyze functionPointerReading freshValidator) =
     Inr [diagnostic ImmutableReadDuringConstruction (200, 201)]"
  by (simp add: walk_defs functionPointerReading_def example_defs)

lemma test_multiple_inheritance_virtual_functions_with_super:
  "map_sum id m_errorReporter (analyze virtualSuper freshValidator) =
     Inr [diagnostic ImmutableReadDuringConstruction (500, 501)]"
  by (simp add: walk_defs virtualSuper_def example_defs)

lemma test_initialization_in_function:
  "map_sum id m_errorReporter (analyze initInFunction freshValidator) =
     Inr [diagnostic InvalidInitLocation (126, 127)]"
  by (simp add: walk_defs initInFunction_def example_defs)


section \<open>Modifier bodies\<close>

lemma walkContext_constructor:
  "walkContext s' = walkContext s \<Longrightarrow> m_currentConstructor s' = m_currentConstructor s"
  by (simp add: walkContext_def)

lemma accept_constructor [simp]:
  "m_currentConstructor (accept P n s) = m_currentConstructor s"
  by (rule walkContext_constructor) (rule walk_walkContext)

lemma listAccept_constructor [simp]:
  "m_currentConstructor (listAccept P ns s) = m_currentConstructor s"
  by (rule walkContext_constructor) (rule walk_walkContext)

lemma visits_constructor:
  "visits P root s n s' \<Longrightarrow> m_currentConstructor s' = m_currentConstructor s"
  by (induction rule: visits.induct) simp_all

lemma analyseCallable_modifier:
  "lookupDecl P d = Some (ModifierDef modDef) \<Longrightarrow>
   analyseCallable P d s =
     (accept P (md_body modDef)
        (s\<lparr>m_currentConstructor := None, walkedBodies := walkedBodies s @ [d]\<rparr>))
       \<lparr>m_currentConstructor := m_currentConstructor s\<rparr>"
  by (simp add: analyseCallable.simps)

text \<open>
  C10. Entering a modifier saves \<open>m_currentConstructor\<close>, clears it, walks the body and
  restores it. Every node inside the body is visited with no current constructor. So an
  ordinary assignment to an immutable state variable inside a modifier body reports
  \<open>InvalidInitLocation\<close> as its location error, and a return statement inside a
  modifier body runs no completeness check: its visit is the walk of its expression.
  This holds for every state at the call site, in particular when the modifier is
  reached from a constructor in construction context.
\<close>

theorem modifier_body_has_no_constructor:
  assumes "lookupDecl P d = Some (ModifierDef modDef)"
  shows "analyseCallable P d s =
           (accept P (md_body modDef)
              (s\<lparr>m_currentConstructor := None, walkedBodies := walkedBodies s @ [d]\<rparr>))
             \<lparr>m_currentConstructor := m_currentConstructor s\<rparr>
         \<and> m_currentConstructor (analyseCallable P d s) = m_currentConstructor s
         \<and> (visits P (md_body modDef)
               (s\<lparr>m_currentConstructor := None, walkedBodies := walkedBodies s @ [d]\<rparr>) n s' \<longrightarrow>
             m_currentConstructor s' = None
             \<and> (n = Identifier loc (Some v) True True \<and> variableAt P v = Some varDecl
                  \<and> vd_isStateVariable varDecl \<and> vd_immutable varDecl \<longrightarrow>
                filter isLocationError (newErrors s' (accept P n s')) =
                  [diagnostic InvalidInitLocation loc])
             \<and> (n = Return loc expression \<longrightarrow>
                accept P n s' =
                  (case expression of Some retExpr \<Rightarrow> accept P retExpr s' | None \<Rightarrow> s')))"
proof -
  let ?entry = "s\<lparr>m_currentConstructor := None, walkedBodies := walkedBodies s @ [d]\<rparr>"
  have enter: "analyseCallable P d s =
      (accept P (md_body modDef) ?entry)\<lparr>m_currentConstructor := m_currentConstructor s\<rparr>"
    by (rule analyseCallable_modifier[OF assms])
  have restored: "m_currentConstructor (analyseCallable P d s) = m_currentConstructor s"
    by (simp add: enter)
  have inside: "m_currentConstructor s' = None
      \<and> (n = Identifier loc (Some v) True True \<and> variableAt P v = Some varDecl
           \<and> vd_isStateVariable varDecl \<and> vd_immutable varDecl \<longrightarrow>
          filter isLocationError (newErrors s' (accept P n s')) =
            [diagnostic InvalidInitLocation loc])
      \<and> (n = Return loc expression \<longrightarrow>
          accept P n s' =
            (case expression of Some retExpr \<Rightarrow> accept P retExpr s' | None \<Rightarrow> s'))"
    if v: "visits P (md_body modDef) ?entry n s'"
  proof -
    have none: "m_currentConstructor s' = None"
      using visits_constructor[OF v] by simp
    have assign: "filter isLocationError (newErrors s' (accept P n s')) =
            [diagnostic InvalidInitLocation loc]"
      if "n = Identifier loc (Some v) True True" "variableAt P v = Some varDecl"
        "vd_isStateVariable varDecl" "vd_immutable varDecl"
      using at_most_one_location_error_chain[OF that(2-4), of s' loc] none that(1) by simp
    have ret: "accept P n s' =
            (case expression of Some retExpr \<Rightarrow> accept P retExpr s' | None \<Rightarrow> s')"
      if "n = Return loc expression"
      using none that by simp
    show ?thesis using none assign ret by blast
  qed
  show ?thesis using enter restored inside by blast
qed

lemma modifierInit_visits_assignment:
  "visits modifierInit modifierInitBody s (Identifier (54, 55) (Some 1) True True) s"
proof -
  have inner: "visits modifierInit
      (OtherNode ([] @ Identifier (54, 55) (Some 1) True True # [OtherNode []]))
      s (Identifier (54, 55) (Some 1) True True) s"
    by (rule visitsChild) (simp add: visitsSelf)
  have middle: "visits modifierInit
      (OtherNode ([] @ OtherNode [Identifier (54, 55) (Some 1) True True, OtherNode []] # []))
      s (Identifier (54, 55) (Some 1) True True) s"
    by (rule visitsChild) (use inner in simp)
  have outer: "visits modifierInit
      (OtherNode ([] @ OtherNode [OtherNode [Identifier (54, 55) (Some 1) True True, OtherNode []]]
                  # [OtherNode [], Return (64, 71) None]))
      s (Identifier (54, 55) (Some 1) True True) s"
    by (rule visitsChild) (use middle in simp)
  show ?thesis using outer by (simp add: modifierInitBody_def)
qed

theorem modifier_body_has_no_constructor_witness:
  "filter isLocationError
     (newErrors
        (inConstruction\<lparr>m_currentConstructor := None, walkedBodies := [2]\<rparr>)
        (accept modifierInit (Identifier (54, 55) (Some 1) True True)
           (inConstruction\<lparr>m_currentConstructor := None, walkedBodies := [2]\<rparr>))) =
     [diagnostic InvalidInitLocation (54, 55)]
   \<and> m_currentConstructor
        (analyseCallable modifierInit 2 (inConstruction\<lparr>m_currentConstructor := Some 3\<rparr>)) = Some 3"
proof -
  let ?call = "inConstruction\<lparr>m_currentConstructor := Some 3\<rparr>"
  let ?entry = "inConstruction\<lparr>m_currentConstructor := None, walkedBodies := [2]\<rparr>"
  let ?n = "Identifier (54, 55) (Some 1) True True"
  have decl: "lookupDecl modifierInit 2 =
      Some (ModifierDef \<lparr>md_name = ''m'', md_virtualSemantics = False, md_body = modifierInitBody\<rparr>)"
    by (simp add: lookupDecl_def modifierInit_def)
  have var: "variableAt modifierInit 1 =
      Some \<lparr>vd_isStateVariable = True, vd_immutable = True, vd_contract = 0,
            vd_value = None, vd_location = (17, 33)\<rparr>"
    by (simp add: variableAt_def lookupDecl_def modifierInit_def immutableVar_def)
  have entry: "?call\<lparr>m_currentConstructor := None, walkedBodies := walkedBodies ?call @ [2]\<rparr> = ?entry"
    by (simp add: inConstruction_def freshValidator_def)
  have vis: "visits modifierInit
      (md_body \<lparr>md_name = ''m'', md_virtualSemantics = False, md_body = modifierInitBody\<rparr>)
      (?call\<lparr>m_currentConstructor := None, walkedBodies := walkedBodies ?call @ [2]\<rparr>) ?n ?entry"
    unfolding entry using modifierInit_visits_assignment[of ?entry] by simp
  note m = modifier_body_has_no_constructor[OF decl, where s="?call" and n="?n" and s'="?entry"
      and loc="(54, 55)" and v=1 and expression=None
      and varDecl="\<lparr>vd_isStateVariable = True, vd_immutable = True, vd_contract = 0,
            vd_value = None, vd_location = (17, 33)\<rparr>"]
  from m vis var
  have a: "filter isLocationError (newErrors ?entry (accept modifierInit ?n ?entry)) =
      [diagnostic InvalidInitLocation (54, 55)]"
    by simp
  from m have b: "m_currentConstructor (analyseCallable modifierInit 2 ?call) = m_currentConstructor ?call"
    by blast
  show ?thesis using a b by simp
qed

lemma test_modifier_initialization:
  "map_sum id (\<lambda>s. (walkedBodies s, m_errorReporter s)) (analyze modifierInit freshValidator) =
     Inr ([2, 3], [diagnostic InvalidInitLocation (54, 55)])"
  by (simp add: walk_defs modifierInit_def modifierInitBody_def example_defs)

section \<open>Defects of the driver\<close>

text \<open>
  C1 fails on the sweep of the driver. The sweep enters a function that is not in the
  visited set without recording it, so a later call edge to the same function enters it
  again. For \<^verbatim>\<open>function f() internal { x = 1; f(); }\<close> the body of \<^verbatim>\<open>f\<close>
  (declaration 2) is walked twice in one run, and the assignment in it is reported
  twice, the second time also as a double initialization.
\<close>

theorem sweep_walks_body_twice:
  "map_sum id (\<lambda>s. (walkedBodies s, m_errorReporter s))
     (analyze recursiveFunction freshValidator) =
     Inr ([2, 2],
          [diagnostic InvalidInitLocation (63, 64),
           diagnostic InvalidInitLocation (63, 64),
           diagnostic DoubleInit (63, 64)])"
  by (simp add: walk_defs recursiveFunction_def example_defs)

text \<open>
  C3 fails on the assertion of the driver. While the initializer of \<^verbatim>\<open>x\<close> is walked,
  the function it calls assigns \<^verbatim>\<open>y\<close>, which records \<^verbatim>\<open>y\<close> as initialized (and
  reports a diagnostic); when the driver then reaches the initializer of \<^verbatim>\<open>y\<close>, its
  assertion that \<^verbatim>\<open>y\<close> is newly inserted fails and the analysis aborts.
\<close>

theorem initializer_assertion_fails:
  "analyze assignedBeforeInitializer freshValidator = Inl InternalCompilerError"
  by (simp add: walk_defs assignedBeforeInitializer_def example_defs)

end
